theory Spec2Isabelle
  imports Main
begin

section \<open>Latency plot: parsing the timestamp log\<close>

text \<open>
  The development embeds \<^verbatim>\<open>parse_logfile\<close> of \<^verbatim>\<open>docs/plot_latency.py\<close>, the
  function that reads the log of timestamps and returns the two arrays of the plot.
  The script is Python 2 (it iterates with \<^verbatim>\<open>xrange\<close>): the file content is a
  byte string, \<^verbatim>\<open>float\<close> is CPython's correctly rounded conversion of a string to
  an IEEE 754 binary64 number, and the arithmetic of Python and of NumPy is binary64
  arithmetic, rounding to nearest, ties to even. Opening the file, the conversions and
  the three indexings are the places where the function can raise; each is a branch of
  the embedding.
\<close>

subsection \<open>Binary64 numbers\<close>

text \<open>
  A finite number \<open>Finite s m e\<close> has the value \<open>(-1)\<^sup>s * m * 2\<^sup>e\<close>. The numbers that
  arithmetic produces are normalised: \<open>m < 2\<^sup>5\<^sup>3\<close>, \<open>-1074 \<le> e \<le> 971\<close>, and
  \<open>2\<^sup>5\<^sup>2 \<le> m\<close> unless \<open>e = -1074\<close> (subnormal numbers and the two zeros).
  All NaNs are one value: the program never looks at a payload.
\<close>

datatype pyfloat = Finite bool nat int | Infinity bool | NaN

definition fzero :: "bool \<Rightarrow> pyfloat" where
  "fzero s = Finite s 0 (- 1074)"

fun bitlen :: "nat \<Rightarrow> nat" where
  "bitlen n = (if n = 0 then 0 else Suc (bitlen (n div 2)))"

declare bitlen.simps [simp del]

text \<open>The quotient \<open>n / d\<close> rounded to the nearest natural number, ties to even.\<close>

definition round_half_even :: "nat \<Rightarrow> nat \<Rightarrow> nat" where
  "round_half_even n d =
     (let q = n div d; r = n mod d
      in if 2 * r < d then q
         else if d < 2 * r then q + 1
         else if even q then q else q + 1)"

text \<open>\<open>n / d\<close> scaled by \<open>2\<^sup>-\<^sup>e\<close>, as a numerator and a denominator.\<close>

definition scaled :: "nat \<Rightarrow> nat \<Rightarrow> int \<Rightarrow> nat \<times> nat" where
  "scaled n d e = (if 0 \<le> e then (n, d * 2 ^ nat e) else (n * 2 ^ nat (- e), d))"

text \<open>
  \<open>round_to_double s n d\<close> is the binary64 number nearest to \<open>(-1)\<^sup>s * n / d\<close>
  (\<open>0 < d\<close>): the exponent is chosen so that the significand has 53 bits, but is not
  taken below the subnormal exponent; a significand that rounds up to \<open>2\<^sup>5\<^sup>3\<close> moves to
  the next binade; what lies beyond the largest finite number becomes an infinity.
\<close>

definition round_to_double :: "bool \<Rightarrow> nat \<Rightarrow> nat \<Rightarrow> pyfloat" where
  "round_to_double s n d =
     (if n = 0 then fzero s
      else
        let k = int (bitlen n) - int (bitlen d);
            (a, b) = scaled n d k;
            fl = (if b \<le> a then k else k - 1);
            e = max (fl - 52) (- 1074);
            (p, q) = scaled n d e;
            m = round_half_even p q;
            (m', e') = (if m = 2 ^ 53 then (2 ^ 52, e + 1) else (m, e))
        in if 971 < e' then Infinity s else Finite s m' e')"

text \<open>A number \<open>m * 2\<^sup>e\<close> with \<open>m\<close> a natural number, rounded.\<close>

definition round_dyadic :: "bool \<Rightarrow> nat \<Rightarrow> int \<Rightarrow> pyfloat" where
  "round_dyadic s m e =
     (if 0 \<le> e then round_to_double s (m * 2 ^ nat e) 1
      else round_to_double s m (2 ^ nat (- e)))"

definition signed :: "bool \<Rightarrow> nat \<Rightarrow> int" where
  "signed s m = (if s then - int m else int m)"

fun fneg :: "pyfloat \<Rightarrow> pyfloat" where
  "fneg (Finite s m e) = Finite (\<not> s) m e"
| "fneg (Infinity s) = Infinity (\<not> s)"
| "fneg NaN = NaN"

fun fabs :: "pyfloat \<Rightarrow> pyfloat" where
  "fabs (Finite s m e) = Finite False m e"
| "fabs (Infinity s) = Infinity False"
| "fabs NaN = NaN"

text \<open>
  Addition: the exact sum of two finite numbers is an integer multiple of \<open>2\<close> to the
  smaller exponent. An exact sum of zero is \<open>+0\<close>, except that \<open>-0 + -0 = -0\<close>.
\<close>

fun fadd :: "pyfloat \<Rightarrow> pyfloat \<Rightarrow> pyfloat" where
  "fadd NaN _ = NaN"
| "fadd _ NaN = NaN"
| "fadd (Infinity s) (Infinity t) = (if s = t then Infinity s else NaN)"
| "fadd (Infinity s) (Finite _ _ _) = Infinity s"
| "fadd (Finite _ _ _) (Infinity t) = Infinity t"
| "fadd (Finite s m e) (Finite t n f) =
     (let g = min e f;
          v = signed s m * 2 ^ nat (e - g) + signed t n * 2 ^ nat (f - g)
      in if v = 0 then fzero (s \<and> t) else round_dyadic (v < 0) (nat \<bar>v\<bar>) g)"

definition fsub :: "pyfloat \<Rightarrow> pyfloat \<Rightarrow> pyfloat" where
  "fsub a b = fadd a (fneg b)"

fun fmul :: "pyfloat \<Rightarrow> pyfloat \<Rightarrow> pyfloat" where
  "fmul NaN _ = NaN"
| "fmul _ NaN = NaN"
| "fmul (Infinity s) (Infinity t) = Infinity (s \<noteq> t)"
| "fmul (Infinity s) (Finite t n _) = (if n = 0 then NaN else Infinity (s \<noteq> t))"
| "fmul (Finite s m _) (Infinity t) = (if m = 0 then NaN else Infinity (s \<noteq> t))"
| "fmul (Finite s m e) (Finite t n f) =
     (if m * n = 0 then fzero (s \<noteq> t) else round_dyadic (s \<noteq> t) (m * n) (e + f))"

text \<open>The comparison \<^verbatim>\<open>==\<close>: a NaN equals nothing, and the two zeros are equal.\<close>

fun feq :: "pyfloat \<Rightarrow> pyfloat \<Rightarrow> bool" where
  "feq (Finite s m e) (Finite t n f) =
     (let g = min e f
      in signed s m * 2 ^ nat (e - g) = signed t n * 2 ^ nat (f - g))"
| "feq (Infinity s) (Infinity t) = (s = t)"
| "feq _ _ = False"

text \<open>
  An integer as a binary64 number. The integers of the program are loop indices and
  the literal \<^verbatim>\<open>1000000\<close>; they are machine integers, whose conversion rounds and
  never fails.
\<close>

definition float_of_int :: "int \<Rightarrow> pyfloat" where
  "float_of_int i = (if i = 0 then fzero False else round_to_double (i < 0) (nat \<bar>i\<bar>) 1)"

subsection \<open>Strings to numbers\<close>

text \<open>
  The whitespace that \<^verbatim>\<open>float\<close> skips at both ends of its argument: space, tab,
  line feed, vertical tab, form feed and carriage return.
\<close>

definition is_space :: "char \<Rightarrow> bool" where
  "is_space c = (c \<in> set [CHR '' '', CHR 0x09, CHR 0x0A, CHR 0x0B, CHR 0x0C, CHR 0x0D])"

definition is_digit :: "char \<Rightarrow> bool" where
  "is_digit c = (c \<in> set ''0123456789'')"

definition strip :: "string \<Rightarrow> string" where
  "strip s = rev (dropWhile is_space (rev (dropWhile is_space s)))"

definition digit_val :: "char \<Rightarrow> nat" where
  "digit_val c = of_char c - 48"

definition digits_val :: "string \<Rightarrow> nat" where
  "digits_val ds = foldl (\<lambda>a c. 10 * a + digit_val c) 0 ds"

text \<open>An optional sign: whether it is a minus, and the rest of the string.\<close>

fun take_sign :: "string \<Rightarrow> bool \<times> string" where
  "take_sign [] = (False, [])"
| "take_sign (c # cs) =
     (if c = CHR ''-'' then (True, cs)
      else if c = CHR ''+'' then (False, cs)
      else (False, c # cs))"

text \<open>
  A decimal numeral: an optional sign, digits with at most one point and at least one
  digit, and an optional exponent (\<^verbatim>\<open>e\<close> or \<^verbatim>\<open>E\<close>, an optional sign, at least one
  digit). The result is the sign, the digits read as a natural number \<open>D\<close> and the power
  of ten \<open>E\<close>: the numeral denotes \<open>D * 10\<^sup>E\<close>. Nothing may follow the numeral.
\<close>

definition parse_decimal :: "string \<Rightarrow> (bool \<times> nat \<times> int) option" where
  "parse_decimal s =
     (let (neg, s1) = take_sign s;
          ip = takeWhile is_digit s1;
          r1 = dropWhile is_digit s1;
          has_point = (r1 \<noteq> [] \<and> hd r1 = CHR ''.'');
          fp = (if has_point then takeWhile is_digit (tl r1) else []);
          r2 = (if has_point then dropWhile is_digit (tl r1) else r1)
      in if ip = [] \<and> fp = [] then None
         else if r2 = [] then Some (neg, digits_val (ip @ fp), - int (length fp))
         else if hd r2 = CHR ''e'' \<or> hd r2 = CHR ''E'' then
           (let (eneg, ds) = take_sign (tl r2)
            in if ds \<noteq> [] \<and> list_all is_digit ds then
                 Some (neg, digits_val (ip @ fp),
                       (if eneg then - int (digits_val ds) else int (digits_val ds))
                         - int (length fp))
               else None)
         else None)"

definition to_lower :: "char \<Rightarrow> char" where
  "to_lower c =
     (let n = (of_char c :: nat) in if 65 \<le> n \<and> n \<le> 90 then char_of (n + 32) else c)"

text \<open>The spellings of the infinities and of NaN, in any letter case, after an optional sign.\<close>

definition parse_inf_or_nan :: "string \<Rightarrow> pyfloat option" where
  "parse_inf_or_nan s =
     (let (neg, r) = take_sign s; w = map to_lower r
      in if w = ''inf'' \<or> w = ''infinity'' then Some (Infinity neg)
         else if w = ''nan'' then Some NaN
         else None)"

text \<open>
  \<^verbatim>\<open>float(s)\<close> for a string \<open>s\<close>: \<open>None\<close> is the \<^verbatim>\<open>ValueError\<close> of a string that is
  not a number. A decimal numeral is rounded correctly to the nearest binary64 number.
\<close>

definition float_of_string :: "string \<Rightarrow> pyfloat option" where
  "float_of_string s =
     (let t = strip s
      in case parse_decimal t of
           Some (neg, D, E) \<Rightarrow>
             Some (if 0 \<le> E then round_to_double neg (D * 10 ^ nat E) 1
                   else round_to_double neg D (10 ^ nat (- E)))
         | None \<Rightarrow> parse_inf_or_nan t)"

subsection \<open>Splitting the file content\<close>

datatype error = IOError | IndexError | ValueError

text \<open>
  \<^verbatim>\<open>s.split(sep, n)\<close> for a separator of one character: at most \<open>n\<close> cuts, from the
  left; what remains after the last cut is the last piece, separators included.
\<close>

fun str_split :: "char \<Rightarrow> nat \<Rightarrow> string \<Rightarrow> string list" where
  "str_split sep 0 s = [s]"
| "str_split sep (Suc n) s =
     (if sep \<in> set s
      then takeWhile (\<lambda>c. c \<noteq> sep) s # str_split sep n (tl (dropWhile (\<lambda>c. c \<noteq> sep) s))
      else [s])"

text \<open>
  \<^verbatim>\<open>s.splitlines()\<close> of a byte string: a line ends at a line feed, at a carriage
  return, or at a carriage return followed by a line feed; the line ends are dropped,
  and no empty line follows the last line end.
\<close>

definition is_linebreak :: "char \<Rightarrow> bool" where
  "is_linebreak c = (c = CHR 0x0A \<or> c = CHR 0x0D)"

fun skip_break :: "string \<Rightarrow> string" where
  "skip_break [] = []"
| "skip_break [c] = []"
| "skip_break (c # d # r) = (if c = CHR 0x0D \<and> d = CHR 0x0A then r else d # r)"

function splitlines :: "string \<Rightarrow> string list" where
  "splitlines s =
     (if s = [] then []
      else takeWhile (\<lambda>c. \<not> is_linebreak c) s
             # splitlines (skip_break (dropWhile (\<lambda>c. \<not> is_linebreak c) s)))"
  by pat_completeness auto

termination splitlines
proof (relation "measure length")
  fix s :: string
  assume ne: "s \<noteq> []"
  let ?r = "dropWhile (\<lambda>c. \<not> is_linebreak c) s"
  have shorter: "length (skip_break r) < length r" if "r \<noteq> []" for r
    using that by (cases r rule: skip_break.cases) auto
  have not_longer: "length (skip_break r) \<le> length r" for r
    by (cases r rule: skip_break.cases) auto
  show "(skip_break ?r, s) \<in> measure length"
  proof (cases "?r = s")
    case True
    with ne shorter [of s] show ?thesis by simp
  next
    case False
    have "length ?r \<le> length s" by (rule length_dropWhile_le)
    moreover have "length ?r \<noteq> length s"
    proof
      assume eq: "length ?r = length s"
      have "takeWhile (\<lambda>c. \<not> is_linebreak c) s @ ?r = s" by simp
      then have "length (takeWhile (\<lambda>c. \<not> is_linebreak c) s) + length ?r = length s"
        by (metis length_append)
      with eq have "takeWhile (\<lambda>c. \<not> is_linebreak c) s = []" by simp
      then have "?r = s" by (metis append_Nil takeWhile_dropWhile_id)
      with False show False by simp
    qed
    ultimately have "length ?r < length s" by simp
    with not_longer [of ?r] show ?thesis by simp
  qed
qed simp

declare splitlines.simps [simp del]

subsection \<open>The parser\<close>

text \<open>
  The loop \<^verbatim>\<open>for i in xrange(1, len(timestamps))\<close>. Each round converts
  \<^verbatim>\<open>timestamps[i]\<close>, then \<^verbatim>\<open>timestamps[0]\<close>, then \<^verbatim>\<open>cycle_time\<close>, and the first
  string that is not a number ends the run with a \<^verbatim>\<open>ValueError\<close>. The index is
  below the length, so no read is out of range.
\<close>

function latency_loop :: "string list \<Rightarrow> string \<Rightarrow> nat \<Rightarrow> pyfloat list \<Rightarrow> error + pyfloat list" where
  "latency_loop timestamps cycle_time i latency =
     (if i < length timestamps then
        (case float_of_string (timestamps ! i) of
           None \<Rightarrow> Inl ValueError
         | Some actual_timestamp \<Rightarrow>
             (case float_of_string (timestamps ! 0) of
                None \<Rightarrow> Inl ValueError
              | Some t0 \<Rightarrow>
                  (case float_of_string cycle_time of
                     None \<Rightarrow> Inl ValueError
                   | Some c \<Rightarrow>
                       (let expected_timestamp = fadd t0 (fmul c (float_of_int (int i)))
                        in latency_loop timestamps cycle_time (i + 1)
                             (latency @ [fabs (fsub actual_timestamp expected_timestamp)])))))
      else Inr latency)"
  by pat_completeness auto
termination
  by (relation "measure (\<lambda>(timestamps, cycle_time, i, latency). length timestamps - i)") auto

declare latency_loop.simps [simp del]

text \<open>
  \<^verbatim>\<open>np.asarray(timestamps, dtype=float)\<close> on a list of strings converts each string
  as \<^verbatim>\<open>float\<close> does.
\<close>

fun asarray_float :: "string list \<Rightarrow> error + pyfloat list" where
  "asarray_float [] = Inr []"
| "asarray_float (s # ss) =
     (case float_of_string s of
        None \<Rightarrow> Inl ValueError
      | Some v \<Rightarrow> (case asarray_float ss of Inl err \<Rightarrow> Inl err | Inr vs \<Rightarrow> Inr (v # vs)))"

text \<open>
  \<^verbatim>\<open>parse_logfile(filename, cycle_time)\<close>. The file system is a map from paths to
  contents; a missing file is the \<^verbatim>\<open>IOError\<close> of \<^verbatim>\<open>open\<close>. The three reads that can
  be out of range are written out: \<^verbatim>\<open>[6]\<close> of the split, \<^verbatim>\<open>pop(0)\<close> of the lines
  and \<^verbatim>\<open>x[0]\<close> of the array. The latencies are numbers already, so their array holds
  them unchanged.
\<close>

definition parse_logfile ::
  "(string \<rightharpoonup> string) \<Rightarrow> string \<Rightarrow> string \<Rightarrow> error + (pyfloat list \<times> pyfloat list)" where
  "parse_logfile fs filename cycle_time =
     (case fs filename of
        None \<Rightarrow> Inl IOError
      | Some data \<Rightarrow>
          (let parts = str_split (CHR 0x0A) 6 data
           in if length parts \<le> 6 then Inl IndexError
              else
                (let timestamps = splitlines (parts ! 6)
                 in case latency_loop timestamps cycle_time 1 [] of
                      Inl err \<Rightarrow> Inl err
                    | Inr latency \<Rightarrow>
                        if timestamps = [] then Inl IndexError
                        else
                          (case asarray_float (tl timestamps) of
                             Inl err \<Rightarrow> Inl err
                           | Inr x \<Rightarrow>
                               if x = [] then Inl IndexError
                               else Inr (map (\<lambda>v. fsub v (x ! 0)) x,
                                         map (\<lambda>v. fmul v (float_of_int 1000000)) latency)))))"

text \<open>
  The second half of \<^verbatim>\<open>parse_logfile\<close>, from the loop on, as a function of the
  lines: the proofs reach it once the header is split off.
\<close>

definition parse_lines :: "string list \<Rightarrow> string \<Rightarrow> error + (pyfloat list \<times> pyfloat list)" where
  "parse_lines timestamps cycle_time =
     (case latency_loop timestamps cycle_time 1 [] of
        Inl err \<Rightarrow> Inl err
      | Inr latency \<Rightarrow>
          if timestamps = [] then Inl IndexError
          else
            (case asarray_float (tl timestamps) of
               Inl err \<Rightarrow> Inl err
             | Inr x \<Rightarrow>
                 if x = [] then Inl IndexError
                 else Inr (map (\<lambda>v. fsub v (x ! 0)) x,
                           map (\<lambda>v. fmul v (float_of_int 1000000)) latency)))"

text \<open>The latency of sample \<open>i\<close>, in seconds, as one round of the loop computes it.\<close>

definition latency_of :: "pyfloat list \<Rightarrow> pyfloat \<Rightarrow> nat \<Rightarrow> pyfloat" where
  "latency_of t c i = fabs (fsub (t ! i) (fadd (t ! 0) (fmul c (float_of_int (int i)))))"

fun is_finite :: "pyfloat \<Rightarrow> bool" where
  "is_finite (Finite _ _ _) = True"
| "is_finite _ = False"

subsection \<open>Opening and reading the file\<close>

text \<open>
  The parser starts with \<^verbatim>\<open>with open(filename) as f: data = f.read()\<close>. The world it runs
  in holds the content of the files and the table of the open file objects, each with its
  path and its read position. \<^verbatim>\<open>open\<close> raises \<^verbatim>\<open>IOError\<close> when there is no such file, and
  otherwise makes a new file object at position 0; \<^verbatim>\<open>read\<close> returns the content from the
  position of the object to the end of the file and moves the position there, and raises
  \<^verbatim>\<open>ValueError\<close> on an object that is not open; leaving the \<^verbatim>\<open>with\<close> block closes the
  object, also when the block raises. The parser writes no file.
\<close>

record world =
  files :: "string \<rightharpoonup> string"
  open_files :: "(string \<times> nat) list"

definition py_open :: "world \<Rightarrow> string \<Rightarrow> error + (nat \<times> world)" where
  "py_open w path =
     (case files w path of
        None \<Rightarrow> Inl IOError
      | Some _ \<Rightarrow> Inr (length (open_files w), w\<lparr>open_files := open_files w @ [(path, 0)]\<rparr>))"

definition py_read :: "world \<Rightarrow> nat \<Rightarrow> error + (string \<times> world)" where
  "py_read w f =
     (if f < length (open_files w) then
        (let (path, pos) = open_files w ! f
         in case files w path of
              None \<Rightarrow> Inl IOError
            | Some content \<Rightarrow>
                Inr (drop pos content,
                     w\<lparr>open_files := (open_files w)[f := (path, length content)]\<rparr>))
      else Inl ValueError)"

definition py_close :: "world \<Rightarrow> nat \<Rightarrow> world" where
  "py_close w f = w\<lparr>open_files := take f (open_files w) @ drop (Suc f) (open_files w)\<rparr>"

text \<open>The lines of the parser after the \<^verbatim>\<open>with\<close> block, from the content read.\<close>

definition parse_content :: "string \<Rightarrow> string \<Rightarrow> error + (pyfloat list \<times> pyfloat list)" where
  "parse_content data cycle_time =
     (let parts = str_split (CHR 0x0A) 6 data
      in if length parts \<le> 6 then Inl IndexError
         else parse_lines (splitlines (parts ! 6)) cycle_time)"

text \<open>One call of the parser in a world: its result, and the world it leaves.\<close>

definition parse_logfile_io ::
  "world \<Rightarrow> string \<Rightarrow> string \<Rightarrow> (error + (pyfloat list \<times> pyfloat list)) \<times> world" where
  "parse_logfile_io w filename cycle_time =
     (case py_open w filename of
        Inl err \<Rightarrow> (Inl err, w)
      | Inr (f, w1) \<Rightarrow>
          (case py_read w1 f of
             Inl err \<Rightarrow> (Inl err, py_close w1 f)
           | Inr (data, w2) \<Rightarrow> (parse_content data cycle_time, py_close w2 f)))"

subsection \<open>Log files\<close>

text \<open>
  A log file with the header lines \<open>header\<close> and the data lines \<open>ts\<close>: every line is
  followed by a line feed, the last one only if \<open>final_newline\<close> holds. A line holds no
  line break.
\<close>

definition unlines :: "string list \<Rightarrow> string" where
  "unlines ls = concat (map (\<lambda>l. l @ [CHR 0x0A]) ls)"

definition logfile :: "string list \<Rightarrow> string list \<Rightarrow> bool \<Rightarrow> string" where
  "logfile header ts final_newline =
     unlines header @ (if final_newline then unlines ts else butlast (unlines ts))"

definition no_linebreak :: "string \<Rightarrow> bool" where
  "no_linebreak l = (\<forall>c \<in> set l. \<not> is_linebreak c)"

text \<open>A file system holding one log file, at the path the script reads.\<close>

definition example_header :: "string list" where
  "example_header = [''# log'', ''# period'', ''# cpu'', ''# prio'', [], ''# timestamps'']"

definition example_path :: string where
  "example_path = ''../src/timestamps.txt''"

definition example_fs :: "string list \<Rightarrow> bool \<Rightarrow> (string \<rightharpoonup> string)" where
  "example_fs ts final_newline = [example_path \<mapsto> logfile example_header ts final_newline]"

text \<open>
  A world that holds the log file and no open file, and one that holds another file as
  well, open and half read.
\<close>

definition example_world :: "string list \<Rightarrow> world" where
  "example_world ts = \<lparr>files = example_fs ts True, open_files = []\<rparr>"

definition plotted_world :: "string list \<Rightarrow> world" where
  "plotted_world ts =
     \<lparr>files = (example_fs ts True)(''latency.png'' \<mapsto> ''image''),
      open_files = [(''latency.png'', 5)]\<rparr>"

section \<open>Lemmas\<close>

subsection \<open>Lines and the header\<close>

text \<open>
  The seventh piece of the split is the data section, whatever the six header lines
  hold, and \<^verbatim>\<open>splitlines\<close> gives back the data lines.
\<close>

lemma unlines_Nil [simp]: "unlines [] = []"
  by (simp add: unlines_def)

lemma unlines_Cons [simp]: "unlines (l # ls) = l @ CHR 0x0A # unlines ls"
  by (simp add: unlines_def)

lemma str_split_cut:
  assumes "sep \<notin> set h"
  shows "str_split sep (Suc n) (h @ sep # r) = h # str_split sep n r"
proof -
  have "takeWhile (\<lambda>c. c \<noteq> sep) (h @ sep # r) = h"
    using assms by (induction h) auto
  moreover have "dropWhile (\<lambda>c. c \<noteq> sep) (h @ sep # r) = sep # r"
    using assms by (induction h) auto
  ultimately show ?thesis by simp
qed

lemma str_split_header:
  "\<forall>h \<in> set hs. CHR 0x0A \<notin> set h \<Longrightarrow>
   str_split (CHR 0x0A) (length hs) (unlines hs @ d) = hs @ [d]"
proof (induction hs)
  case Nil
  show ?case by simp
next
  case (Cons h hs)
  then show ?case by (simp add: str_split_cut del: str_split.simps)
qed

lemma splitlines_Nil [simp]: "splitlines [] = []"
  by (simp add: splitlines.simps)

lemma splitlines_line:
  assumes "no_linebreak l"
  shows "splitlines (l @ CHR 0x0A # r) = l # splitlines r"
proof -
  have tw: "takeWhile (\<lambda>c. \<not> is_linebreak c) (l @ CHR 0x0A # r) = l"
    using assms by (induction l) (auto simp: no_linebreak_def is_linebreak_def)
  have dw: "dropWhile (\<lambda>c. \<not> is_linebreak c) (l @ CHR 0x0A # r) = CHR 0x0A # r"
    using assms by (induction l) (auto simp: no_linebreak_def is_linebreak_def)
  have sk: "skip_break (CHR 0x0A # r) = r"
    by (cases r) auto
  show ?thesis
    by (subst splitlines.simps) (simp add: tw dw sk)
qed

lemma splitlines_single:
  assumes "no_linebreak l" "l \<noteq> []"
  shows "splitlines l = [l]"
proof -
  have tw: "takeWhile (\<lambda>c. \<not> is_linebreak c) l = l"
    using assms(1) by (induction l) (auto simp: no_linebreak_def)
  have dw: "dropWhile (\<lambda>c. \<not> is_linebreak c) l = []"
    using assms(1) by (induction l) (auto simp: no_linebreak_def)
  show ?thesis
    using assms(2) by (subst splitlines.simps) (simp add: tw dw)
qed

lemma splitlines_unlines_append:
  "\<forall>l \<in> set ts. no_linebreak l \<Longrightarrow> splitlines (unlines ts @ r) = ts @ splitlines r"
  by (induction ts) (simp_all add: splitlines_line)

lemma butlast_unlines:
  "ts \<noteq> [] \<Longrightarrow> butlast (unlines ts) = unlines (butlast ts) @ last ts"
proof (induction ts)
  case Nil
  then show ?case by simp
next
  case (Cons l ls)
  show ?case
  proof (cases ls)
    case Nil
    then show ?thesis by (simp add: butlast_append)
  next
    case (Cons k ks)
    with Cons.IH show ?thesis by (simp add: butlast_append)
  qed
qed

lemma splitlines_data:
  assumes "\<forall>l \<in> set ts. no_linebreak l" "ts \<noteq> []" "final_newline \<or> last ts \<noteq> []"
  shows "splitlines (if final_newline then unlines ts else butlast (unlines ts)) = ts"
proof (cases final_newline)
  case True
  with splitlines_unlines_append [OF assms(1), of "[]"] show ?thesis by simp
next
  case False
  with assms(3) have ne: "last ts \<noteq> []" by simp
  have "\<forall>l \<in> set (butlast ts). no_linebreak l"
    using assms(1) by (auto dest: in_set_butlastD)
  then have "splitlines (unlines (butlast ts) @ last ts) = butlast ts @ splitlines (last ts)"
    by (rule splitlines_unlines_append)
  moreover have "splitlines (last ts) = [last ts]"
    using assms(1,2) ne by (simp add: splitlines_single)
  ultimately show ?thesis
    using False assms(2) by (simp add: butlast_unlines)
qed

lemma data_section:
  assumes "length header = 6" "\<forall>h \<in> set header. CHR 0x0A \<notin> set h"
  shows "str_split (CHR 0x0A) 6 (unlines header @ d) = header @ [d]"
  using str_split_header [OF assms(2), of d] assms(1) by simp

lemma parse_logfile_header:
  assumes "fs filename = Some (unlines header @ d)"
    and "length header = 6" and "\<forall>h \<in> set header. CHR 0x0A \<notin> set h"
  shows "parse_logfile fs filename cycle_time = parse_lines (splitlines d) cycle_time"
  using assms(1) data_section [OF assms(2,3), of d] assms(2)
  by (simp add: parse_logfile_def parse_lines_def Let_def nth_append del: str_split.simps)

lemma parse_logfile_lines:
  assumes "fs filename = Some (logfile header ts final_newline)"
    and "length header = 6" and "\<forall>h \<in> set header. CHR 0x0A \<notin> set h"
    and "\<forall>l \<in> set ts. no_linebreak l" and "ts \<noteq> []" and "final_newline \<or> last ts \<noteq> []"
  shows "parse_logfile fs filename cycle_time = parse_lines ts cycle_time"
proof -
  have "fs filename
          = Some (unlines header @ (if final_newline then unlines ts else butlast (unlines ts)))"
    using assms(1) by (simp add: logfile_def)
  from parse_logfile_header [of fs filename header, OF this assms(2,3)]
    splitlines_data [OF assms(4,5,6)]
  show ?thesis by simp
qed


subsection \<open>The loop and the arrays\<close>

text \<open>
  On lines that all convert the loop returns the latencies of the samples \<open>1\<close> to
  \<open>N - 1\<close>; it fails with \<^verbatim>\<open>ValueError\<close> only, and where it returns, every line it
  read converts.
\<close>

lemma parsed_nth:
  assumes "map float_of_string ts = map Some t" "j < length ts"
  shows "float_of_string (ts ! j) = Some (t ! j)"
proof -
  have len: "length t = length ts"
    using assms(1) by (metis length_map)
  have "map float_of_string ts ! j = map Some t ! j"
    using assms(1) by simp
  with assms(2) len show ?thesis by simp
qed

lemma latency_loop_ok:
  assumes "map float_of_string ts = map Some t" "float_of_string cycle_time = Some c"
  shows "latency_loop ts cycle_time i acc = Inr (acc @ map (latency_of t c) [i..<length ts])"
  using assms
proof (induction ts cycle_time i acc rule: latency_loop.induct)
  case (1 ts cycle_time i acc)
  show ?case
  proof (cases "i < length ts")
    case False
    then show ?thesis by (subst latency_loop.simps) simp
  next
    case True
    have pi: "float_of_string (ts ! i) = Some (t ! i)"
      using "1.prems"(1) True by (rule parsed_nth)
    have p0: "float_of_string (ts ! 0) = Some (t ! 0)"
      using "1.prems"(1) True by (intro parsed_nth) auto
    have step: "latency_loop ts cycle_time (i + 1) (acc @ [latency_of t c i])
                  = Inr ((acc @ [latency_of t c i]) @ map (latency_of t c) [i + 1..<length ts])"
      using "1.IH" [OF True pi p0 "1.prems"(2) refl "1.prems"] by (simp add: latency_of_def)
    have "latency_loop ts cycle_time i acc
            = latency_loop ts cycle_time (i + 1) (acc @ [latency_of t c i])"
      using True pi p0 "1.prems"(2)
      by (subst latency_loop.simps) (simp add: latency_of_def)
    with step True show ?thesis by (simp add: upt_conv_Cons)
  qed
qed

lemma latency_loop_error:
  "latency_loop ts cycle_time i acc = Inl err \<Longrightarrow> err = ValueError"
proof (induction ts cycle_time i acc rule: latency_loop.induct)
  case (1 ts cycle_time i acc)
  from "1.prems" show ?case
    by (subst (asm) latency_loop.simps) (auto split: if_splits option.splits dest: "1.IH")
qed

lemma latency_loop_parsed:
  "latency_loop ts cycle_time i acc = Inr r \<Longrightarrow> i \<le> j \<Longrightarrow> j < length ts \<Longrightarrow>
   float_of_string (ts ! j) \<noteq> None \<and> float_of_string (ts ! 0) \<noteq> None"
proof (induction ts cycle_time i acc rule: latency_loop.induct)
  case (1 ts cycle_time i acc)
  from "1.prems"(2,3) have lt: "i < length ts" by simp
  show ?case
  proof (cases "float_of_string (ts ! i)")
    case None
    with "1.prems"(1) lt show ?thesis by (subst (asm) latency_loop.simps) simp
  next
    case a: (Some a)
    show ?thesis
    proof (cases "float_of_string (ts ! 0)")
      case None
      with "1.prems"(1) lt a show ?thesis by (subst (asm) latency_loop.simps) simp
    next
      case b: (Some b)
      show ?thesis
      proof (cases "float_of_string cycle_time")
        case None
        with "1.prems"(1) lt a b show ?thesis by (subst (asm) latency_loop.simps) simp
      next
        case c: (Some c)
        have next_round: "latency_loop ts cycle_time (i + 1)
            (acc @ [fabs (fsub a (fadd b (fmul c (float_of_int (int i)))))]) = Inr r"
          using "1.prems"(1) lt a b c by (subst (asm) latency_loop.simps) simp
        show ?thesis
        proof (cases "j = i")
          case True
          with a b show ?thesis by simp
        next
          case False
          with "1.prems"(2) have "i + 1 \<le> j" by simp
          from "1.IH" [OF lt a b c refl next_round this "1.prems"(3)] show ?thesis .
        qed
      qed
    qed
  qed
qed

lemma asarray_float_ok:
  "map float_of_string ss = map Some vs \<Longrightarrow> asarray_float ss = Inr vs"
proof (induction ss arbitrary: vs)
  case Nil
  then show ?case by simp
next
  case (Cons s ss)
  then obtain v ws where vs: "vs = v # ws" by (cases vs) auto
  with Cons show ?case by simp
qed

lemma parse_lines_ok:
  assumes "map float_of_string ts = map Some t" "float_of_string cycle_time = Some c"
    and "2 \<le> length ts"
  shows "parse_lines ts cycle_time
           = Inr (map (\<lambda>v. fsub v (t ! 1)) (tl t),
                  map (\<lambda>i. fmul (latency_of t c i) (float_of_int 1000000)) [1..<length ts])"
proof -
  have len: "length t = length ts"
    using assms(1) by (metis length_map)
  have "map float_of_string (tl ts) = map Some (tl t)"
    using assms(1) by (simp add: map_tl)
  then have x: "asarray_float (tl ts) = Inr (tl t)"
    by (rule asarray_float_ok)
  have ne: "ts \<noteq> []" "tl t \<noteq> []"
    using assms(3) len by (auto simp: Nil_tl) (cases t; auto)+
  have hd: "tl t ! 0 = t ! 1"
    using assms(3) len by (simp add: nth_tl)
  show ?thesis
    using latency_loop_ok [OF assms(1,2), of 1 "[]"] x ne hd
    by (simp add: parse_lines_def)
qed

lemma parse_lines_error:
  assumes "2 \<le> length ts" "l \<in> set ts" "float_of_string l = None"
  shows "parse_lines ts cycle_time = Inl ValueError"
proof (cases "latency_loop ts cycle_time 1 []")
  case (Inl err)
  with latency_loop_error [OF Inl] show ?thesis by (simp add: parse_lines_def)
next
  case (Inr r)
  from assms(2) obtain j where j: "j < length ts" "ts ! j = l"
    by (auto simp: in_set_conv_nth)
  have "float_of_string (ts ! j) \<noteq> None"
  proof (cases "j = 0")
    case True
    from latency_loop_parsed [OF Inr, of 1] assms(1) True show ?thesis by simp
  next
    case False
    with latency_loop_parsed [OF Inr, of j] j(1) show ?thesis by simp
  qed
  with j(2) assms(3) show ?thesis by simp
qed

lemma parse_lines_single: "parse_lines [l] cycle_time = Inl IndexError"
  by (simp add: parse_lines_def latency_loop.simps)

lemma parse_lines_Nil: "parse_lines [] cycle_time = Inl IndexError"
  by (simp add: parse_lines_def latency_loop.simps)


subsection \<open>Arithmetic\<close>

text \<open>
  The facts of binary64 arithmetic that the claims rest on: \<open>a - a\<close> is \<open>+0\<close> for a
  finite \<open>a\<close> and NaN otherwise, numbers that are \<^verbatim>\<open>==\<close> have the difference zero, and
  multiplication commutes.
\<close>

lemmas parse_defs = float_of_string_def strip_def is_space_def is_digit_def parse_decimal_def
  parse_inf_or_nan_def digits_val_def digit_val_def to_lower_def Let_def

lemmas round_defs = round_to_double_def round_dyadic_def scaled_def round_half_even_def fzero_def
  bitlen.simps signed_def Let_def

lemma float_of_string_empty: "float_of_string [] = None"
  by (simp add: parse_defs)

lemma fsub_self: "fsub (Finite s m e) (Finite s m e) = fzero False"
  by (simp add: fsub_def signed_def)

lemma fsub_NaN: "fsub NaN b = NaN"
  by (simp add: fsub_def)

lemma fsub_Infinity_same: "fsub (Infinity s) (Infinity s) = NaN"
  by (simp add: fsub_def)

lemma feq_fsub:
  assumes "feq (Finite s m e) b"
  shows "fabs (fsub (Finite s m e) b) = fzero False"
proof (cases b)
  case (Finite t n f)
  with assms show ?thesis
    by (cases t) (auto simp: fsub_def signed_def fzero_def Let_def)
next
  case (Infinity t)
  with assms show ?thesis by simp
next
  case NaN
  with assms show ?thesis by simp
qed

lemma fmul_commute: "fmul a b = fmul b a"
proof (cases a; cases b)
  fix s m e t n f
  assume "a = Finite s m e" "b = Finite t n f"
  moreover have "(s \<noteq> t) = (t \<noteq> s)" by auto
  ultimately show ?thesis by (simp add: mult.commute add.commute)
qed auto

lemma float_of_int_0: "float_of_int 0 = fzero False"
  by (simp add: float_of_int_def)

lemma float_of_int_1: "float_of_int 1 = Finite False 4503599627370496 (- 52)"
  by (simp add: float_of_int_def round_defs)

lemma float_of_int_2: "float_of_int 2 = Finite False 4503599627370496 (- 51)"
  by (simp add: float_of_int_def round_defs)

lemma float_of_int_million: "float_of_int 1000000 = Finite False 8589934592000000 (- 33)"
  by (simp add: float_of_int_def round_defs)

lemma fmul_zero_million: "fmul (fzero False) (float_of_int 1000000) = fzero False"
  by (simp add: float_of_int_million) (simp add: fzero_def)


subsection \<open>Opening and reading the file\<close>

text \<open>
  A call of the parser opens the file, reads all of it and closes it: the result is the
  one of the parser on the content of the files, and the world is left as it was.
\<close>

lemma parse_logfile_content:
  "parse_logfile fs filename cycle_time
     = (case fs filename of None \<Rightarrow> Inl IOError | Some data \<Rightarrow> parse_content data cycle_time)"
  by (simp add: parse_logfile_def parse_content_def parse_lines_def Let_def split: option.split)

lemma open_read_close:
  assumes "files w filename = Some data"
  shows "py_open w filename
           = Inr (length (open_files w), w\<lparr>open_files := open_files w @ [(filename, 0)]\<rparr>)"
    and "py_read (w\<lparr>open_files := open_files w @ [(filename, 0)]\<rparr>) (length (open_files w))
           = Inr (data, w\<lparr>open_files := open_files w @ [(filename, length data)]\<rparr>)"
    and "py_close (w\<lparr>open_files := open_files w @ [(filename, length data)]\<rparr>)
           (length (open_files w)) = w"
  using assms by (simp_all add: py_open_def py_read_def py_close_def)

lemma parse_logfile_io_eq:
  "parse_logfile_io w filename cycle_time = (parse_logfile (files w) filename cycle_time, w)"
proof (cases "files w filename")
  case None
  then show ?thesis by (simp add: parse_logfile_io_def py_open_def parse_logfile_def)
next
  case (Some data)
  from open_read_close [OF Some] Some show ?thesis
    by (simp add: parse_logfile_io_def parse_logfile_content)
qed

subsection \<open>Valid files\<close>

text \<open>
  The result on a file of six header lines and at least two data lines that convert.
\<close>

lemma last_parsed:
  assumes "map float_of_string ts = map Some t" "ts \<noteq> []"
  shows "last ts \<noteq> []"
proof
  assume "last ts = []"
  moreover have "length ts - 1 < length ts" using assms(2) by simp
  ultimately have "float_of_string (ts ! (length ts - 1)) = None"
    using assms(2) by (simp add: last_conv_nth float_of_string_empty)
  with parsed_nth [OF assms(1) \<open>length ts - 1 < length ts\<close>] show False by simp
qed

lemma parse_logfile_valid:
  assumes "fs filename = Some (logfile header ts final_newline)"
    and "length header = 6" and "\<forall>h \<in> set header. CHR 0x0A \<notin> set h"
    and "2 \<le> length ts" and "\<forall>l \<in> set ts. no_linebreak l"
    and "map float_of_string ts = map Some t" and "float_of_string cycle_time = Some c"
  shows "parse_logfile fs filename cycle_time
           = Inr (map (\<lambda>v. fsub v (t ! 1)) (tl t),
                  map (\<lambda>i. fmul (latency_of t c i) (float_of_int 1000000)) [1..<length ts])"
proof -
  from assms(4) have ne: "ts \<noteq> []" by auto
  from last_parsed [OF assms(6) ne] have "final_newline \<or> last ts \<noteq> []" by simp
  from parse_logfile_lines [of fs filename, OF assms(1,2,3,5) ne this] parse_lines_ok [OF assms(6,7,4)]
  show ?thesis by simp
qed


subsection \<open>Conversions and sums, evaluated\<close>

text \<open>
  The conversion rounds to the nearest number and ties to the even significand
  (\<open>2\<^sup>5\<^sup>3 + 1\<close> goes down, \<open>2\<^sup>5\<^sup>3 + 3\<close> goes up), and \<open>0.1 + 0.2\<close> is the number that
  Python prints as \<^verbatim>\<open>0.30000000000000004\<close>.
\<close>

lemma float_ties_down:
  "float_of_string ''9007199254740993'' = Some (Finite False 4503599627370496 1)"
  by (simp add: parse_defs round_defs)

lemma float_ties_up:
  "float_of_string ''9007199254740995'' = Some (Finite False 4503599627370498 1)"
  by (simp add: parse_defs round_defs)

lemma float_signed_exponent:
  "float_of_string '' -1.5e3 '' = Some (Finite True 6597069766656000 (- 42))"
  by (simp add: parse_defs round_defs)

lemma float_0_2: "float_of_string ''0.2'' = Some (Finite False 7205759403792794 (- 55))"
  by (simp add: parse_defs round_defs)

lemma sum_0_1_0_2:
  "fadd (Finite False 7205759403792794 (- 56)) (Finite False 7205759403792794 (- 55))
     = Finite False 5404319552844596 (- 54)"
  by (simp add: round_defs)

lemma float_10_0: "float_of_string ''10.0'' = Some (Finite False 5629499534213120 (- 49))"
  by (simp add: parse_defs round_defs)

lemma float_10_1: "float_of_string ''10.1'' = Some (Finite False 5685794529555251 (- 49))"
  by (simp add: parse_defs round_defs)

lemma float_10_25: "float_of_string ''10.25'' = Some (Finite False 5770237022568448 (- 49))"
  by (simp add: parse_defs round_defs)

lemma float_0_1: "float_of_string ''0.1'' = Some (Finite False 7205759403792794 (- 56))"
  by (simp add: parse_defs round_defs)

lemma float_0_15: "float_of_string ''0.15'' = Some (Finite False 5404319552844595 (- 55))"
  by (simp add: parse_defs round_defs)

lemma float_50000: "float_of_string ''50000.0'' = Some (Finite False 6871947673600000 (- 37))"
  by (simp add: parse_defs round_defs)

lemma float_0_0: "float_of_string ''0.0'' = Some (fzero False)"
  by (simp add: parse_defs round_defs)

lemma float_nan: "float_of_string ''nan'' = Some NaN"
  by (simp add: parse_defs)

lemma float_inf: "float_of_string ''inf'' = Some (Infinity False)"
  by (simp add: parse_defs)

lemma float_1: "float_of_string ''1'' = Some (Finite False 4503599627370496 (- 52))"
  by (simp add: parse_defs round_defs)

lemma float_2: "float_of_string ''2'' = Some (Finite False 4503599627370496 (- 51))"
  by (simp add: parse_defs round_defs)

lemma float_abc: "float_of_string ''abc'' = None"
  by (simp add: parse_defs)

lemma one_times_zero:
  "fmul (Finite False 4503599627370496 (- 52)) (float_of_int 0) = fzero False"
  by (simp add: float_of_int_0) (simp add: fzero_def)

lemma one_times_one:
  "fmul (Finite False 4503599627370496 (- 52)) (float_of_int 1)
     = Finite False 4503599627370496 (- 52)"
  by (simp add: float_of_int_1 round_defs)

lemma one_plus_one:
  "fadd (Finite False 4503599627370496 (- 52)) (Finite False 4503599627370496 (- 52))
     = Finite False 4503599627370496 (- 51)"
  by (simp add: round_defs)


subsection \<open>The example files\<close>

text \<open>
  The lines of the example files, and the arithmetic of the scenario
  \<^verbatim>\<open>10.0\<close>, \<^verbatim>\<open>10.1\<close>, \<^verbatim>\<open>10.25\<close> with the cycle time \<^verbatim>\<open>0.1\<close>.
\<close>

lemma example_header_ok:
  "length example_header = 6" "\<forall>h \<in> set example_header. CHR 0x0A \<notin> set h"
  by (simp_all add: example_header_def)

lemma example_fs_path: "example_fs ts nl example_path = Some (logfile example_header ts nl)"
  by (simp add: example_fs_def)

lemma no_linebreak_10_0: "no_linebreak ''10.0''"
  by (simp add: no_linebreak_def is_linebreak_def)

lemma scenario_lines_ok: "\<forall>l \<in> set [''10.0'', ''10.1'', ''10.25'']. no_linebreak l"
  by (simp add: no_linebreak_def is_linebreak_def)

lemma scenario_parsed:
  "map float_of_string [''10.0'', ''10.1'', ''10.25'']
     = map Some [Finite False 5629499534213120 (- 49), Finite False 5685794529555251 (- 49),
         Finite False 5770237022568448 (- 49)]"
  by (simp add: float_10_0 float_10_1 float_10_25)

lemma scenario_latency_1:
  "latency_of [Finite False 5629499534213120 (- 49), Finite False 5685794529555251 (- 49),
       Finite False 5770237022568448 (- 49)] (Finite False 7205759403792794 (- 56)) 1
     = fzero False"
  by (simp add: latency_of_def float_of_int_1 fsub_def round_defs)

lemma scenario_latency_2:
  "latency_of [Finite False 5629499534213120 (- 49), Finite False 5685794529555251 (- 49),
       Finite False 5770237022568448 (- 49)] (Finite False 7205759403792794 (- 56)) 2
     = Finite False 7205759403792896 (- 57)"
  by (simp add: latency_of_def float_of_int_2 fsub_def round_defs)

lemma scenario_x:
  "fsub (Finite False 5770237022568448 (- 49)) (Finite False 5685794529555251 (- 49))
     = Finite False 5404319552844608 (- 55)"
  by (simp add: fsub_def round_defs)

lemma scenario_y:
  "fmul (Finite False 7205759403792896 (- 57)) (Finite False 8589934592000000 (- 33))
     = Finite False 6871947673600098 (- 37)"
  by (simp add: round_defs)

lemma scenario_result:
  assumes "fs filename = Some (logfile header [''10.0'', ''10.1'', ''10.25''] final_newline)"
    and "length header = 6" and "\<forall>h \<in> set header. CHR 0x0A \<notin> set h"
  shows "parse_logfile fs filename ''0.1''
           = Inr ([fzero False, Finite False 5404319552844608 (- 55)],
                  [fzero False, Finite False 6871947673600098 (- 37)])"
proof -
  note v = parse_logfile_valid [of fs filename, OF assms _ scenario_lines_ok scenario_parsed
      float_0_1]
  have l1: "latency_of [Finite False 5629499534213120 (- 49), Finite False 5685794529555251 (- 49),
       Finite False 5770237022568448 (- 49)] (Finite False 7205759403792794 (- 56)) (Suc 0)
     = fzero False"
    using scenario_latency_1 by simp
  have l2: "latency_of [Finite False 5629499534213120 (- 49), Finite False 5685794529555251 (- 49),
       Finite False 5770237022568448 (- 49)] (Finite False 7205759403792794 (- 56)) (Suc (Suc 0))
     = Finite False 7205759403792896 (- 57)"
    using scenario_latency_2 by (simp add: numeral_2_eq_2)
  have y1: "fmul (fzero False) (Finite False 8589934592000000 (- 33)) = fzero False"
    using fmul_zero_million by (simp add: float_of_int_million)
  show ?thesis
    using v by (simp add: fsub_self scenario_x l1 l2 y1 float_of_int_million scenario_y
        del: fmul.simps)
qed

lemma nan_lines:
  "\<forall>l \<in> set [''10.0'', ''nan'']. no_linebreak l"
  "map float_of_string [''10.0'', ''nan'']
     = map Some [Finite False 5629499534213120 (- 49), NaN]"
  by (simp_all add: no_linebreak_def is_linebreak_def float_10_0 float_nan)

lemma on_schedule_lines:
  "\<forall>l \<in> set [''1'', ''2'']. no_linebreak l"
  "map float_of_string [''1'', ''2'']
     = map Some [Finite False 4503599627370496 (- 52), Finite False 4503599627370496 (- 51)]"
  by (simp_all add: no_linebreak_def is_linebreak_def float_1 float_2)

lemma inf_lines:
  "\<forall>l \<in> set [''inf'', ''inf'']. no_linebreak l"
  "map float_of_string [''inf'', ''inf''] = map Some [Infinity False, Infinity False]"
  by (simp_all add: no_linebreak_def is_linebreak_def float_inf)

lemma inf_schedule:
  "fadd (Infinity False) (fmul (Finite False 4503599627370496 (- 52)) (float_of_int (int i)))
     = Infinity False" if "i = 0 \<or> i = 1"
  using that one_times_zero one_times_one
  by (auto simp: fzero_def simp del: fmul.simps)

lemma malformed_lines: "\<forall>l \<in> set [''10.0'', ''abc'', ''10.25'']. no_linebreak l"
  by (simp add: no_linebreak_def is_linebreak_def)

lemma blank_lines: "\<forall>l \<in> set [''10.0'', [], ''10.1'']. no_linebreak l"
  by (simp add: no_linebreak_def is_linebreak_def)

lemma blank_end_lines: "\<forall>l \<in> set [''10.0'', ''10.1'', []]. no_linebreak l"
  by (simp add: no_linebreak_def is_linebreak_def)

lemma splitlines_unlines:
  assumes "\<forall>l \<in> set ts. no_linebreak l"
  shows "splitlines (unlines ts) = ts"
  using splitlines_unlines_append [OF assms, of "[]"] by simp

lemma splitlines_extra_newline:
  assumes "\<forall>l \<in> set ts. no_linebreak l"
  shows "splitlines (unlines ts @ [CHR 0x0A]) = ts @ [[]]"
proof -
  have "\<forall>l \<in> set (ts @ [[]]). no_linebreak l"
    using assms by (simp add: no_linebreak_def)
  from splitlines_unlines [OF this] show ?thesis
    by (simp add: unlines_def)
qed

lemma scenario_arrays:
  "(map (\<lambda>v. fsub v ([Finite False 5629499534213120 (- 49), Finite False 5685794529555251 (- 49),
            Finite False 5770237022568448 (- 49)] ! 1))
      (tl [Finite False 5629499534213120 (- 49), Finite False 5685794529555251 (- 49),
            Finite False 5770237022568448 (- 49)]),
    map (\<lambda>i. fmul (latency_of [Finite False 5629499534213120 (- 49),
            Finite False 5685794529555251 (- 49), Finite False 5770237022568448 (- 49)]
            (Finite False 7205759403792794 (- 56)) i) (float_of_int 1000000))
      [1..<length [''10.0'', ''10.1'', ''10.25'']])
   = ([fzero False, Finite False 5404319552844608 (- 55)],
      [fzero False, Finite False 6871947673600098 (- 37)])"
proof -
  have l1: "latency_of [Finite False 5629499534213120 (- 49), Finite False 5685794529555251 (- 49),
       Finite False 5770237022568448 (- 49)] (Finite False 7205759403792794 (- 56)) (Suc 0)
     = fzero False"
    using scenario_latency_1 by simp
  have l2: "latency_of [Finite False 5629499534213120 (- 49), Finite False 5685794529555251 (- 49),
       Finite False 5770237022568448 (- 49)] (Finite False 7205759403792794 (- 56)) (Suc (Suc 0))
     = Finite False 7205759403792896 (- 57)"
    using scenario_latency_2 by (simp add: numeral_2_eq_2)
  have y1: "fmul (fzero False) (Finite False 8589934592000000 (- 33)) = fzero False"
    using fmul_zero_million by (simp add: float_of_int_million)
  show ?thesis
    by (simp add: fsub_self scenario_x l1 l2 y1 float_of_int_million scenario_y del: fmul.simps)
qed

lemma example_world_run:
  "parse_logfile_io (example_world [''10.0'', ''10.1'', ''10.25'']) example_path ''0.1''
     = (Inr ([fzero False, Finite False 5404319552844608 (- 55)],
             [fzero False, Finite False 6871947673600098 (- 37)]),
        example_world [''10.0'', ''10.1'', ''10.25''])"
  using scenario_result [of "example_fs [''10.0'', ''10.1'', ''10.25''] True" example_path,
      OF example_fs_path example_header_ok]
  by (simp add: parse_logfile_io_eq example_world_def)

lemma plotted_world_file:
  "files (plotted_world ts) example_path = files (example_world ts) example_path"
  by (simp add: plotted_world_def example_world_def example_path_def)

section \<open>The claims\<close>

text \<open>
  Claim C1. A log file of exactly six header lines and \<open>N \<ge> 2\<close> timestamp lines, each
  of which \<^verbatim>\<open>float\<close> converts (to \<open>t\<^sub>0, \<dots>, t\<^sub>N\<^sub>-\<^sub>1\<close>), with a cycle time that converts
  to \<open>c\<close>: the parser returns the arrays \<open>x\<close> and \<open>y\<close> with
  \<open>x[j] = t\<^sub>j\<^sub>+\<^sub>1 - t\<^sub>1\<close> and \<open>y[j] = 1000000 * |t\<^sub>j\<^sub>+\<^sub>1 - (t\<^sub>0 + c * (j + 1))|\<close> for every
  \<open>j\<close> from \<open>0\<close> to \<open>N - 2\<close>, each operation being the binary64 operation.
\<close>

theorem parse_logfile_values:
  assumes "fs filename = Some (logfile header ts final_newline)"
    and "length header = 6" and "\<forall>h \<in> set header. CHR 0x0A \<notin> set h"
    and "2 \<le> length ts" and "\<forall>l \<in> set ts. no_linebreak l"
    and "map float_of_string ts = map Some t" and "float_of_string cycle_time = Some c"
  shows "parse_logfile fs filename cycle_time
           = Inr (map (\<lambda>j. fsub (t ! (j + 1)) (t ! 1)) [0..<length ts - 1],
                  map (\<lambda>j. fmul (float_of_int 1000000)
                                 (fabs (fsub (t ! (j + 1))
                                    (fadd (t ! 0) (fmul c (float_of_int (int (j + 1))))))))
                      [0..<length ts - 1])"
proof -
  have len: "length t = length ts"
    using assms(6) by (metis length_map)
  have x: "map (\<lambda>v. fsub v (t ! 1)) (tl t) = map (\<lambda>j. fsub (t ! (j + 1)) (t ! 1)) [0..<length ts - 1]"
    using len by (auto simp: list_eq_iff_nth_eq nth_tl)
  have y: "map (\<lambda>i. fmul (latency_of t c i) (float_of_int 1000000)) [1..<length ts]
             = map (\<lambda>j. fmul (float_of_int 1000000)
                            (fabs (fsub (t ! (j + 1))
                               (fadd (t ! 0) (fmul c (float_of_int (int (j + 1))))))))
                 [0..<length ts - 1]"
    by (auto simp: list_eq_iff_nth_eq latency_of_def fmul_commute add.commute)
  from parse_logfile_valid [of fs filename, OF assms] x y show ?thesis by simp
qed

theorem parse_logfile_values_witness:
  "parse_logfile (example_fs [''10.0'', ''10.1'', ''10.25''] True) example_path ''0.1''
     = Inr ([fzero False, Finite False 5404319552844608 (- 55)],
            [fzero False, Finite False 6871947673600098 (- 37)])"
proof -
  note v = parse_logfile_values [of "example_fs [''10.0'', ''10.1'', ''10.25''] True" example_path,
      OF example_fs_path example_header_ok _ scenario_lines_ok scenario_parsed float_0_1]
  have "fmul (float_of_int 1000000) (fzero False) = fzero False"
    by (simp add: fmul_commute [of "float_of_int 1000000"] fmul_zero_million)
  moreover have "fmul (float_of_int 1000000) (Finite False 7205759403792896 (- 57))
      = Finite False 6871947673600098 (- 37)"
    by (simp add: float_of_int_million round_defs)
  moreover note scenario_latency_1 [unfolded latency_of_def] scenario_latency_2 [unfolded latency_of_def]
  ultimately show ?thesis
    using v by (simp add: fsub_self scenario_x)
qed


text \<open>
  Claim C2, as amended. A log file whose data section is one line, the reference sample
  alone: the parser returns no arrays. The loop does not run, \<^verbatim>\<open>pop(0)\<close> leaves no
  line, and \<^verbatim>\<open>x[0]\<close> of the empty array raises \<^verbatim>\<open>IndexError\<close>, whatever the line and
  the cycle time are.
\<close>

theorem single_line_index_error:
  assumes "fs filename = Some (logfile header [l] final_newline)"
    and "length header = 6" and "\<forall>h \<in> set header. CHR 0x0A \<notin> set h"
    and "no_linebreak l"
  shows "parse_logfile fs filename cycle_time = Inl IndexError"
proof (cases "final_newline \<or> l \<noteq> []")
  case True
  with parse_logfile_lines [of fs filename header "[l]" final_newline cycle_time] assms
  show ?thesis by (simp add: parse_lines_single)
next
  case False
  then have "fs filename = Some (unlines header @ [])"
    using assms(1) by (simp add: logfile_def)
  from parse_logfile_header [of fs filename header, OF this assms(2,3)]
  show ?thesis by (simp add: parse_lines_Nil)
qed

theorem single_line_index_error_witness:
  "parse_logfile (example_fs [''10.0''] True) example_path ''0.1'' = Inl IndexError"
  using single_line_index_error [of "example_fs [''10.0''] True" example_path,
      OF example_fs_path example_header_ok no_linebreak_10_0]
  by simp


text \<open>
  Claim C2 as stated, that one data line gives two empty arrays and no exception, fails
  on a file whose only data line is \<^verbatim>\<open>10.0\<close>.
\<close>

theorem single_line_counterexample:
  "parse_logfile (example_fs [''10.0''] True) example_path ''0.1'' \<noteq> Inr ([], [])"
proof -
  have "parse_logfile (example_fs [''10.0''] True) example_path ''0.1''
          = parse_lines [''10.0''] ''0.1''"
    using example_fs_path example_header_ok
    by (rule parse_logfile_lines) (simp_all add: no_linebreak_10_0)
  then show ?thesis by (simp add: parse_lines_single)
qed


text \<open>
  Claim C3. On a valid input, six header lines and \<open>N \<ge> 2\<close> timestamp lines that convert,
  with a cycle time that converts, the two arrays have the same length, \<open>N - 1\<close>.
\<close>

theorem parse_logfile_lengths:
  assumes "fs filename = Some (logfile header ts final_newline)"
    and "length header = 6" and "\<forall>h \<in> set header. CHR 0x0A \<notin> set h"
    and "2 \<le> length ts" and "\<forall>l \<in> set ts. no_linebreak l"
    and "map float_of_string ts = map Some t" and "float_of_string cycle_time = Some c"
  shows "\<exists>x y. parse_logfile fs filename cycle_time = Inr (x, y)
           \<and> length x = length y \<and> length y = length ts - 1"
proof -
  have "length t = length ts"
    using assms(6) by (metis length_map)
  with parse_logfile_valid [of fs filename, OF assms] show ?thesis by simp
qed

theorem parse_logfile_lengths_witness:
  "\<exists>x y. parse_logfile (example_fs [''10.0'', ''10.1'', ''10.25''] False) example_path ''0.1''
            = Inr (x, y) \<and> length x = length y \<and> length y = 2"
  using parse_logfile_lengths [of "example_fs [''10.0'', ''10.1'', ''10.25''] False" example_path,
      OF example_fs_path example_header_ok _ scenario_lines_ok scenario_parsed float_0_1]
  by (simp add: numeral_2_eq_2)


text \<open>
  Claim C4, as amended. On a valid input whose second timestamp, the first sample that
  is kept, is a finite number, the result is not empty and the first element of \<open>x\<close> is
  \<open>+0\<close>.
\<close>

theorem first_x_zero:
  assumes "fs filename = Some (logfile header ts final_newline)"
    and "length header = 6" and "\<forall>h \<in> set header. CHR 0x0A \<notin> set h"
    and "2 \<le> length ts" and "\<forall>l \<in> set ts. no_linebreak l"
    and "map float_of_string ts = map Some t" and "float_of_string cycle_time = Some c"
    and "is_finite (t ! 1)"
  shows "\<exists>x y. parse_logfile fs filename cycle_time = Inr (x, y) \<and> x \<noteq> [] \<and> x ! 0 = fzero False"
proof -
  have len: "length t = length ts"
    using assms(6) by (metis length_map)
  obtain a b rest where t: "t = a # b # rest"
  proof (cases t)
    case Nil
    with len assms(4) show ?thesis by simp
  next
    case outer: (Cons a r)
    show ?thesis
    proof (cases r)
      case Nil
      with outer len assms(4) show ?thesis by simp
    next
      case (Cons b rest)
      with outer that show ?thesis by simp
    qed
  qed
  from assms(8) t obtain s m e where b: "b = Finite s m e"
    by (cases b) auto
  have "parse_logfile fs filename cycle_time
          = Inr (map (\<lambda>v. fsub v (t ! 1)) (tl t),
                 map (\<lambda>i. fmul (latency_of t c i) (float_of_int 1000000)) [1..<length ts])"
    using assms(1-7) by (rule parse_logfile_valid)
  moreover have "map (\<lambda>v. fsub v (t ! 1)) (tl t) = fzero False # map (\<lambda>v. fsub v b) rest"
    unfolding t b by (simp add: fsub_self)
  ultimately show ?thesis by simp
qed

theorem first_x_zero_witness:
  "\<exists>x y. parse_logfile (example_fs [''10.0'', ''10.1'', ''10.25''] True) example_path ''0.1''
            = Inr (x, y) \<and> x \<noteq> [] \<and> x ! 0 = fzero False"
  using first_x_zero [of "example_fs [''10.0'', ''10.1'', ''10.25''] True" example_path,
      OF example_fs_path example_header_ok _ scenario_lines_ok scenario_parsed float_0_1]
  by simp


text \<open>
  Claim C4 as stated, for every valid input, fails when the second timestamp line is
  \<^verbatim>\<open>nan\<close>, which \<^verbatim>\<open>float\<close> converts: \<open>x[0]\<close> is then \<open>NaN - NaN = NaN\<close>, which is not
  zero.
\<close>

theorem first_x_counterexample:
  "parse_logfile (example_fs [''10.0'', ''nan''] True) example_path ''0.1'' = Inr ([NaN], [NaN])
   \<and> \<not> feq NaN (fzero False) \<and> NaN \<noteq> fzero False"
proof -
  have "latency_of [Finite False 5629499534213120 (- 49), NaN]
          (Finite False 7205759403792794 (- 56)) 1 = NaN"
    by (simp add: latency_of_def fsub_NaN)
  with parse_logfile_valid [of "example_fs [''10.0'', ''nan''] True" example_path,
      OF example_fs_path example_header_ok _ nan_lines float_0_1]
  show ?thesis by (simp add: fsub_NaN fzero_def)
qed


text \<open>
  Claim C5, as amended. On a valid input in which every timestamp after the reference
  sample is a finite number and equals (\<^verbatim>\<open>==\<close>) its scheduled time
  \<open>t\<^sub>0 + c * i\<close>, computed in binary64, every element of \<open>y\<close> is \<open>+0\<close>. (The reference
  sample itself is index \<open>0\<close>; the loop starts at \<open>1\<close>, so nothing is asked of it.)
\<close>

theorem on_schedule_zero_latency:
  assumes "fs filename = Some (logfile header ts final_newline)"
    and "length header = 6" and "\<forall>h \<in> set header. CHR 0x0A \<notin> set h"
    and "2 \<le> length ts" and "\<forall>l \<in> set ts. no_linebreak l"
    and "map float_of_string ts = map Some t" and "float_of_string cycle_time = Some c"
    and "\<forall>i. 1 \<le> i \<and> i < length ts \<longrightarrow>
           is_finite (t ! i) \<and> feq (t ! i) (fadd (t ! 0) (fmul c (float_of_int (int i))))"
  shows "\<exists>x. parse_logfile fs filename cycle_time
               = Inr (x, replicate (length ts - 1) (fzero False))"
proof -
  have lat: "fmul (latency_of t c i) (float_of_int 1000000) = fzero False"
    if "1 \<le> i" "i < length ts" for i
  proof -
    from assms(8) that
    have fin: "is_finite (t ! i)"
      and eq: "feq (t ! i) (fadd (t ! 0) (fmul c (float_of_int (int i))))"
      by auto
    from fin obtain s m e where "t ! i = Finite s m e"
      by (cases "t ! i") auto
    with eq have "latency_of t c i = fzero False"
      by (simp add: latency_of_def feq_fsub)
    then show ?thesis by (simp add: fmul_zero_million)
  qed
  have "map (\<lambda>i. fmul (latency_of t c i) (float_of_int 1000000)) [1..<length ts]
          = map (\<lambda>i. fzero False) [1..<length ts]"
    by (rule map_cong) (simp_all add: lat)
  then have "map (\<lambda>i. fmul (latency_of t c i) (float_of_int 1000000)) [1..<length ts]
          = replicate (length ts - 1) (fzero False)"
    by (simp add: map_replicate_const)
  with parse_logfile_valid [of fs filename, OF assms(1-7)] show ?thesis by simp
qed

theorem on_schedule_zero_latency_witness:
  "\<exists>x. parse_logfile (example_fs [''1'', ''2''] True) example_path ''1''
         = Inr (x, [fzero False])"
proof -
  have sched: "\<forall>i. 1 \<le> i \<and> i < length [''1'', ''2''] \<longrightarrow>
      is_finite ([Finite False 4503599627370496 (- 52), Finite False 4503599627370496 (- 51)] ! i)
      \<and> feq ([Finite False 4503599627370496 (- 52), Finite False 4503599627370496 (- 51)] ! i)
          (fadd ([Finite False 4503599627370496 (- 52), Finite False 4503599627370496 (- 51)] ! 0)
             (fmul (Finite False 4503599627370496 (- 52)) (float_of_int (int i))))"
  proof (intro allI impI)
    fix i :: nat
    assume "1 \<le> i \<and> i < length [''1'', ''2'']"
    then have "i = 1" by auto
    then show "is_finite ([Finite False 4503599627370496 (- 52), Finite False 4503599627370496 (- 51)] ! i)
      \<and> feq ([Finite False 4503599627370496 (- 52), Finite False 4503599627370496 (- 51)] ! i)
          (fadd ([Finite False 4503599627370496 (- 52), Finite False 4503599627370496 (- 51)] ! 0)
             (fmul (Finite False 4503599627370496 (- 52)) (float_of_int (int i))))"
      using one_times_one one_plus_one by (simp del: fmul.simps fadd.simps)
  qed
  from on_schedule_zero_latency [of "example_fs [''1'', ''2''] True" example_path,
      OF example_fs_path example_header_ok _ on_schedule_lines float_1 sched]
  show ?thesis by simp
qed


text \<open>
  Claim C5 as stated fails on infinite timestamps: with the data lines \<^verbatim>\<open>inf\<close>,
  \<^verbatim>\<open>inf\<close> and the cycle time \<^verbatim>\<open>1\<close> every timestamp equals its scheduled time
  (\<open>\<infinity> == \<infinity> + 1 * i\<close>), and the latency is \<open>|\<infinity> - \<infinity>| * 1000000 = NaN\<close>.
\<close>

theorem on_schedule_counterexample:
  "map float_of_string [''inf'', ''inf''] = map Some [Infinity False, Infinity False]
   \<and> float_of_string ''1'' = Some (Finite False 4503599627370496 (- 52))
   \<and> feq (Infinity False)
        (fadd (Infinity False) (fmul (Finite False 4503599627370496 (- 52)) (float_of_int 0)))
   \<and> feq (Infinity False)
        (fadd (Infinity False) (fmul (Finite False 4503599627370496 (- 52)) (float_of_int 1)))
   \<and> parse_logfile (example_fs [''inf'', ''inf''] True) example_path ''1'' = Inr ([NaN], [NaN])
   \<and> \<not> feq NaN (fzero False)"
proof -
  have s0: "fadd (Infinity False) (fmul (Finite False 4503599627370496 (- 52)) (float_of_int 0))
      = Infinity False"
    using inf_schedule [of 0] by simp
  have s1: "fadd (Infinity False) (fmul (Finite False 4503599627370496 (- 52)) (float_of_int 1))
      = Infinity False"
    using inf_schedule [of 1] by simp
  have "latency_of [Infinity False, Infinity False] (Finite False 4503599627370496 (- 52)) 1 = NaN"
    using s1 by (simp add: latency_of_def fsub_Infinity_same del: fmul.simps fadd.simps)
  with parse_logfile_valid [of "example_fs [''inf'', ''inf''] True" example_path,
      OF example_fs_path example_header_ok _ inf_lines float_1]
  have "parse_logfile (example_fs [''inf'', ''inf''] True) example_path ''1'' = Inr ([NaN], [NaN])"
    by (simp add: fsub_Infinity_same)
  with s0 s1 inf_lines(2) float_1 show ?thesis
    by (simp add: fzero_def del: fmul.simps fadd.simps)
qed


text \<open>
  Claim C6. A log file of six header lines and at least two data lines, one of which
  \<^verbatim>\<open>float\<close> does not convert: the parser fails with the \<^verbatim>\<open>ValueError\<close> of the
  conversion, whatever the cycle time is.
\<close>

theorem malformed_line_value_error:
  assumes "fs filename = Some (logfile header ts final_newline)"
    and "length header = 6" and "\<forall>h \<in> set header. CHR 0x0A \<notin> set h"
    and "2 \<le> length ts" and "\<forall>l \<in> set ts. no_linebreak l"
    and "final_newline \<or> last ts \<noteq> []"
    and "l \<in> set ts" and "float_of_string l = None"
  shows "parse_logfile fs filename cycle_time = Inl ValueError"
proof -
  from assms(4) have "ts \<noteq> []" by auto
  from parse_logfile_lines [of fs filename, OF assms(1,2,3,5) this assms(6)]
    parse_lines_error [OF assms(4,7,8)]
  show ?thesis by simp
qed

theorem malformed_line_value_error_witness:
  "parse_logfile (example_fs [''10.0'', ''abc'', ''10.25''] True) example_path ''0.1''
     = Inl ValueError"
  using malformed_line_value_error [of "example_fs [''10.0'', ''abc'', ''10.25''] True"
      example_path example_header "[''10.0'', ''abc'', ''10.25'']" True "''abc''" "''0.1''",
      OF example_fs_path example_header_ok _ malformed_lines _ _ float_abc]
  by simp


text \<open>
  Claim C7, as amended. With any six header lines, the data lines \<^verbatim>\<open>10.0\<close>,
  \<^verbatim>\<open>10.1\<close>, \<^verbatim>\<open>10.25\<close> and the cycle time \<^verbatim>\<open>0.1\<close>, the parser returns
  \<open>x = [0.0, 5404319552844608 * 2\<^sup>-\<^sup>5\<^sup>5]\<close> and \<open>y = [0.0, 6871947673600098 * 2\<^sup>-\<^sup>3\<^sup>7]\<close>, which
  Python prints as \<^verbatim>\<open>0.15000000000000036\<close> and \<^verbatim>\<open>50000.00000000071\<close>: the decimal
  numerals \<^verbatim>\<open>10.1\<close> and \<^verbatim>\<open>0.1\<close> are not binary64 numbers, and the rounding errors
  of their conversion remain in the differences.
\<close>

theorem scenario_values:
  assumes "fs filename = Some (logfile header [''10.0'', ''10.1'', ''10.25''] final_newline)"
    and "length header = 6" and "\<forall>h \<in> set header. CHR 0x0A \<notin> set h"
  shows "parse_logfile fs filename ''0.1''
           = Inr ([fzero False, Finite False 5404319552844608 (- 55)],
                  [fzero False, Finite False 6871947673600098 (- 37)])"
  using assms by (rule scenario_result)

theorem scenario_values_witness:
  "parse_logfile (example_fs [''10.0'', ''10.1'', ''10.25''] False) example_path ''0.1''
     = Inr ([fzero False, Finite False 5404319552844608 (- 55)],
            [fzero False, Finite False 6871947673600098 (- 37)])"
  using scenario_values [of "example_fs [''10.0'', ''10.1'', ''10.25''] False" example_path,
      OF example_fs_path example_header_ok]
  by simp


text \<open>
  Claim C7 as stated, \<open>x = [0.0, 0.15]\<close> and \<open>y = [0.0, 50000.0]\<close>, fails: the binary64
  numbers \<^verbatim>\<open>0.15\<close> and \<^verbatim>\<open>50000.0\<close> are \<open>5404319552844595 * 2\<^sup>-\<^sup>5\<^sup>5\<close> and
  \<open>6871947673600000 * 2\<^sup>-\<^sup>3\<^sup>7\<close>, and the parser returns neither, also up to \<^verbatim>\<open>==\<close>.
\<close>

theorem scenario_counterexample:
  "float_of_string ''0.0'' = Some (fzero False)
   \<and> float_of_string ''0.15'' = Some (Finite False 5404319552844595 (- 55))
   \<and> float_of_string ''50000.0'' = Some (Finite False 6871947673600000 (- 37))
   \<and> parse_logfile (example_fs [''10.0'', ''10.1'', ''10.25''] True) example_path ''0.1''
       \<noteq> Inr ([fzero False, Finite False 5404319552844595 (- 55)],
              [fzero False, Finite False 6871947673600000 (- 37)])
   \<and> \<not> feq (Finite False 5404319552844608 (- 55)) (Finite False 5404319552844595 (- 55))
   \<and> \<not> feq (Finite False 6871947673600098 (- 37)) (Finite False 6871947673600000 (- 37))"
  using scenario_result [of "example_fs [''10.0'', ''10.1'', ''10.25''] True" example_path,
      OF example_fs_path example_header_ok]
  by (simp add: float_0_0 float_0_15 float_50000 signed_def)


text \<open>
  Claim C8. Two calls of the parser on the same file with the same cycle time give the
  same result. The first call, in any world, leaves the world as it found it: the file
  object it opened is closed and no file is written. A second call in the world the
  first one leaves therefore opens the file anew, reads it from its start, and returns
  the same result, a failure included; so does a call in any other world where the file
  has the same content, whatever other files exist there and whatever files are open.
\<close>

theorem parse_logfile_deterministic:
  assumes "parse_logfile_io w filename cycle_time = (r, w1)"
  shows "parse_logfile_io w1 filename cycle_time = (r, w1)
         \<and> (\<forall>w'. files w' filename = files w filename \<longrightarrow>
                fst (parse_logfile_io w' filename cycle_time) = r)"
proof -
  from assms have r: "r = parse_logfile (files w) filename cycle_time" and w1: "w1 = w"
    by (auto simp: parse_logfile_io_eq)
  have again: "parse_logfile_io w1 filename cycle_time = (r, w1)"
    unfolding w1 r by (rule parse_logfile_io_eq)
  have "fst (parse_logfile_io w' filename cycle_time) = r"
    if "files w' filename = files w filename" for w'
    using that by (simp add: parse_logfile_io_eq r parse_logfile_content)
  with again show ?thesis by simp
qed

theorem parse_logfile_deterministic_witness:
  "parse_logfile_io (example_world [''10.0'', ''10.1'', ''10.25'']) example_path ''0.1''
     = (Inr ([fzero False, Finite False 5404319552844608 (- 55)],
             [fzero False, Finite False 6871947673600098 (- 37)]),
        example_world [''10.0'', ''10.1'', ''10.25''])
   \<and> fst (parse_logfile_io (plotted_world [''10.0'', ''10.1'', ''10.25'']) example_path ''0.1'')
       = Inr ([fzero False, Finite False 5404319552844608 (- 55)],
              [fzero False, Finite False 6871947673600098 (- 37)])"
  using parse_logfile_deterministic [OF example_world_run] plotted_world_file
  by simp


text \<open>
  Claim C9. Two files that differ in their six header lines only, with the same data
  section \<open>d\<close> and the same cycle time, give the same result.
\<close>

theorem header_ignored:
  assumes "fs filename = Some (unlines header @ d)"
    and "fs' filename' = Some (unlines header' @ d)"
    and "length header = 6" and "\<forall>h \<in> set header. CHR 0x0A \<notin> set h"
    and "length header' = 6" and "\<forall>h \<in> set header'. CHR 0x0A \<notin> set h"
  shows "parse_logfile fs filename cycle_time = parse_logfile fs' filename' cycle_time"
  using parse_logfile_header [of fs filename header d cycle_time, OF assms(1,3,4)]
    parse_logfile_header [of fs' filename' header' d cycle_time, OF assms(2,5,6)]
  by simp

theorem header_ignored_witness:
  "parse_logfile (example_fs [''10.0'', ''10.1''] True) example_path ''0.1''
     = parse_logfile [''other.txt'' \<mapsto> unlines [''a'', ''b'', ''c'', ''d'', ''e'', ''f'']
                         @ unlines [''10.0'', ''10.1'']] ''other.txt'' ''0.1''"
  using header_ignored [of "example_fs [''10.0'', ''10.1''] True" example_path example_header
      "unlines [''10.0'', ''10.1'']"
      "[''other.txt'' \<mapsto> unlines [''a'', ''b'', ''c'', ''d'', ''e'', ''f'']
          @ unlines [''10.0'', ''10.1'']]" "''other.txt''" "[''a'', ''b'', ''c'', ''d'', ''e'', ''f'']"
      "''0.1''"]
    example_header_ok
  by (simp add: example_fs_def logfile_def)


text \<open>
  Claim C10. One line feed after the last timestamp line is tolerated: \<^verbatim>\<open>splitlines\<close>
  gives the \<open>N\<close> lines and no empty string after them, and a file of \<open>N \<ge> 2\<close> timestamp
  lines that convert parses to the arrays of these lines, with the final line feed as
  without it; in general the file with it and the file without it give the same result.
  A further line feed makes one more line, the empty string. A blank line among the data
  lines or after them, each line ending in a line feed, reaches \<^verbatim>\<open>float\<close> as the empty
  string, which it does not convert, and the parser fails with \<^verbatim>\<open>ValueError\<close>.
\<close>

theorem trailing_newline_and_blank_lines:
  assumes "fs filename = Some (logfile header ts True)"
    and "fs' filename = Some (logfile header ts False)"
    and "length header = 6" and "\<forall>h \<in> set header. CHR 0x0A \<notin> set h"
    and "\<forall>l \<in> set ts. no_linebreak l" and "ts \<noteq> []"
  shows "splitlines (unlines ts) = ts
         \<and> splitlines (unlines ts @ [CHR 0x0A]) = ts @ [[]]
         \<and> (last ts \<noteq> [] \<longrightarrow>
              parse_logfile fs filename cycle_time = parse_logfile fs' filename cycle_time)
         \<and> (2 \<le> length ts \<and> map float_of_string ts = map Some t
                \<and> float_of_string cycle_time = Some c \<longrightarrow>
              parse_logfile fs filename cycle_time
                = Inr (map (\<lambda>v. fsub v (t ! 1)) (tl t),
                       map (\<lambda>i. fmul (latency_of t c i) (float_of_int 1000000)) [1..<length ts])
              \<and> parse_logfile fs' filename cycle_time
                = Inr (map (\<lambda>v. fsub v (t ! 1)) (tl t),
                       map (\<lambda>i. fmul (latency_of t c i) (float_of_int 1000000)) [1..<length ts]))
         \<and> (2 \<le> length ts \<and> [] \<in> set ts \<longrightarrow>
              float_of_string [] = None \<and> parse_logfile fs filename cycle_time = Inl ValueError)"
proof (intro conjI impI)
  show "splitlines (unlines ts) = ts"
    using assms(5) by (rule splitlines_unlines)
  show "splitlines (unlines ts @ [CHR 0x0A]) = ts @ [[]]"
    using assms(5) by (rule splitlines_extra_newline)
next
  assume ne: "last ts \<noteq> []"
  have "parse_logfile fs filename cycle_time = parse_lines ts cycle_time"
    using assms(1,3,4,5,6) by (rule parse_logfile_lines) simp
  moreover have "parse_logfile fs' filename cycle_time = parse_lines ts cycle_time"
    using assms(2,3,4,5,6) by (rule parse_logfile_lines) (simp add: ne)
  ultimately show "parse_logfile fs filename cycle_time = parse_logfile fs' filename cycle_time"
    by simp
next
  assume valid: "2 \<le> length ts \<and> map float_of_string ts = map Some t
    \<and> float_of_string cycle_time = Some c"
  then have n: "2 \<le> length ts" and p: "map float_of_string ts = map Some t"
    and c: "float_of_string cycle_time = Some c"
    by simp_all
  show "parse_logfile fs filename cycle_time
          = Inr (map (\<lambda>v. fsub v (t ! 1)) (tl t),
                 map (\<lambda>i. fmul (latency_of t c i) (float_of_int 1000000)) [1..<length ts])"
    using assms(1,3,4) n assms(5) p c by (rule parse_logfile_valid)
  show "parse_logfile fs' filename cycle_time
          = Inr (map (\<lambda>v. fsub v (t ! 1)) (tl t),
                 map (\<lambda>i. fmul (latency_of t c i) (float_of_int 1000000)) [1..<length ts])"
    using assms(2,3,4) n assms(5) p c by (rule parse_logfile_valid)
next
  assume "2 \<le> length ts \<and> [] \<in> set ts"
  show "float_of_string [] = None" by (rule float_of_string_empty)
next
  assume blank: "2 \<le> length ts \<and> [] \<in> set ts"
  have "parse_logfile fs filename cycle_time = parse_lines ts cycle_time"
    using assms(1,3,4,5,6) by (rule parse_logfile_lines) simp
  with parse_lines_error [of ts "[]" cycle_time] blank float_of_string_empty
  show "parse_logfile fs filename cycle_time = Inl ValueError" by simp
qed

theorem trailing_newline_and_blank_lines_witness:
  "splitlines (unlines [''10.0'', ''10.1'', ''10.25'']) = [''10.0'', ''10.1'', ''10.25'']
   \<and> parse_logfile (example_fs [''10.0'', ''10.1'', ''10.25''] True) example_path ''0.1''
       = Inr ([fzero False, Finite False 5404319552844608 (- 55)],
              [fzero False, Finite False 6871947673600098 (- 37)])
   \<and> parse_logfile (example_fs [''10.0'', ''10.1'', ''10.25''] False) example_path ''0.1''
       = Inr ([fzero False, Finite False 5404319552844608 (- 55)],
              [fzero False, Finite False 6871947673600098 (- 37)])
   \<and> float_of_string [] = None
   \<and> parse_logfile (example_fs [''10.0'', ''10.1'', []] True) example_path ''0.1''
       = Inl ValueError
   \<and> parse_logfile (example_fs [''10.0'', [], ''10.1''] True) example_path ''0.1''
       = Inl ValueError"
proof -
  have ne: "[''10.0'', ''10.1'', ''10.25''] \<noteq> []" "[''10.0'', ''10.1'', []] \<noteq> []"
    "[''10.0'', [], ''10.1''] \<noteq> []"
    by simp_all
  note good = trailing_newline_and_blank_lines [of "example_fs [''10.0'', ''10.1'', ''10.25''] True"
      example_path example_header "[''10.0'', ''10.1'', ''10.25'']"
      "example_fs [''10.0'', ''10.1'', ''10.25''] False" "''0.1''"
      "[Finite False 5629499534213120 (- 49), Finite False 5685794529555251 (- 49),
        Finite False 5770237022568448 (- 49)]" "Finite False 7205759403792794 (- 56)",
      OF example_fs_path example_fs_path example_header_ok scenario_lines_ok ne(1)]
  note at_end = trailing_newline_and_blank_lines [of "example_fs [''10.0'', ''10.1'', []] True"
      example_path example_header "[''10.0'', ''10.1'', []]"
      "example_fs [''10.0'', ''10.1'', []] False" "''0.1''",
      OF example_fs_path example_fs_path example_header_ok blank_end_lines ne(2)]
  note inside = trailing_newline_and_blank_lines [of "example_fs [''10.0'', [], ''10.1''] True"
      example_path example_header "[''10.0'', [], ''10.1'']"
      "example_fs [''10.0'', [], ''10.1''] False" "''0.1''",
      OF example_fs_path example_fs_path example_header_ok blank_lines ne(3)]
  have valid: "2 \<le> length [''10.0'', ''10.1'', ''10.25'']
      \<and> map float_of_string [''10.0'', ''10.1'', ''10.25'']
          = map Some [Finite False 5629499534213120 (- 49), Finite False 5685794529555251 (- 49),
              Finite False 5770237022568448 (- 49)]
      \<and> float_of_string ''0.1'' = Some (Finite False 7205759403792794 (- 56))"
    using scenario_parsed float_0_1 by simp
  have a: "splitlines (unlines [''10.0'', ''10.1'', ''10.25'']) = [''10.0'', ''10.1'', ''10.25'']"
    by (rule good [THEN conjunct1])
  have b: "parse_logfile (example_fs [''10.0'', ''10.1'', ''10.25''] True) example_path ''0.1''
       = Inr ([fzero False, Finite False 5404319552844608 (- 55)],
              [fzero False, Finite False 6871947673600098 (- 37)])"
    and c: "parse_logfile (example_fs [''10.0'', ''10.1'', ''10.25''] False) example_path ''0.1''
       = Inr ([fzero False, Finite False 5404319552844608 (- 55)],
              [fzero False, Finite False 6871947673600098 (- 37)])"
    using good [THEN conjunct2, THEN conjunct2, THEN conjunct2, THEN conjunct1, rule_format, OF valid]
    unfolding scenario_arrays by simp_all
  have d: "float_of_string [] = None
     \<and> parse_logfile (example_fs [''10.0'', ''10.1'', []] True) example_path ''0.1''
         = Inl ValueError"
    using at_end [THEN conjunct2, THEN conjunct2, THEN conjunct2, THEN conjunct2] by simp
  have e: "parse_logfile (example_fs [''10.0'', [], ''10.1''] True) example_path ''0.1''
         = Inl ValueError"
    using inside [THEN conjunct2, THEN conjunct2, THEN conjunct2, THEN conjunct2] by simp
  from a b c d e show ?thesis by simp
qed

end
